theory Spec2Isabelle
  imports Main "HOL-Library.Multiset"
begin

section \<open>Text\<close>

text \<open>
  A Python \<^verbatim>\<open>str\<close> is a sequence of Unicode code points, so a string is a list of
  code points given as natural numbers (a Hangul syllable is one element, not three
  UTF-8 bytes).
\<close>

type_synonym codepoint = nat
type_synonym pystr = "codepoint list"

text \<open>ASCII literals are written through \<open>ustr\<close>; other characters by code point.\<close>

definition ustr :: "string \<Rightarrow> pystr" where
  "ustr s = map of_char s"

definition colon :: codepoint where
  "colon = 58"

definition hash :: codepoint where
  "hash = 35"

definition newline :: codepoint where
  "newline = 10"

text \<open>
  The characters \<^verbatim>\<open>str.strip()\<close> removes when called without an argument: those
  for which \<^verbatim>\<open>str.isspace()\<close> holds (tab to carriage return, the four
  separators U+001C to U+001F, space, NEL, no-break space, Ogham space mark, U+2000 to
  U+200A, line and paragraph separator, narrow no-break space, medium mathematical
  space, ideographic space).
\<close>

definition is_space :: "codepoint \<Rightarrow> bool" where
  "is_space c =
     ((9 \<le> c \<and> c \<le> 13) \<or> (28 \<le> c \<and> c \<le> 32) \<or> c = 133 \<or> c = 160 \<or> c = 5760
      \<or> (8192 \<le> c \<and> c \<le> 8202) \<or> c = 8232 \<or> c = 8233 \<or> c = 8239 \<or> c = 8287
      \<or> c = 12288)"

definition lstrip :: "pystr \<Rightarrow> pystr" where
  "lstrip s = dropWhile is_space s"

definition rstrip :: "pystr \<Rightarrow> pystr" where
  "rstrip s = rev (dropWhile is_space (rev s))"

text \<open>\<^verbatim>\<open>s.strip()\<close>: leading and trailing whitespace removed.\<close>

definition strip :: "pystr \<Rightarrow> pystr" where
  "strip s = rstrip (lstrip s)"

text \<open>\<^verbatim>\<open>s.startswith(p)\<close>.\<close>

definition startswith :: "pystr \<Rightarrow> pystr \<Rightarrow> bool" where
  "startswith s p = (take (length p) s = p)"

text \<open>
  \<^verbatim>\<open>s.split(sep)\<close> for a one-character separator, as a left-to-right scan: \<open>cur\<close>
  is the field being read. Every separator ends a field, empty fields are kept, and
  the result always has at least one field.
\<close>

fun split_from :: "codepoint \<Rightarrow> pystr \<Rightarrow> pystr \<Rightarrow> pystr list" where
  "split_from sep cur [] = [cur]"
| "split_from sep cur (c # s) =
     (if c = sep then cur # split_from sep [] s else split_from sep (cur @ [c]) s)"

definition split_str :: "pystr \<Rightarrow> codepoint \<Rightarrow> pystr list" where
  "split_str s sep = split_from sep [] s"

section \<open>The line parser\<close>

text \<open>
  \<^verbatim>\<open>parse_hanja_line(line)\<close>: \<open>None\<close> for a blank line, a comment, a line with
  fewer than three fields or an empty hangul or hanja; otherwise the triple
  \<open>(hangul, hanja, meaning)\<close>.
\<close>

definition parse_hanja_line :: "pystr \<Rightarrow> (pystr \<times> pystr \<times> pystr) option" where
  "parse_hanja_line line0 =
     (let line = strip line0 in
      if line = [] \<or> startswith line [hash] then None
      else
        let parts = split_str line colon in
        if length parts < 3 then None
        else
          let hangul = strip (parts ! 0);
              hanja = strip (parts ! 1);
              meaning = strip (parts ! 2)
          in if hangul = [] \<or> hanja = [] then None
             else Some (hangul, hanja, meaning))"

text \<open>Whether a string begins, or ends, with a whitespace character.\<close>

definition starts_with_space :: "pystr \<Rightarrow> bool" where
  "starts_with_space s = (case s of [] \<Rightarrow> False | c # _ \<Rightarrow> is_space c)"

definition ends_with_space :: "pystr \<Rightarrow> bool" where
  "ends_with_space s = starts_with_space (rev s)"

text \<open>A string of whitespace only (the empty string included).\<close>

definition blank :: "pystr \<Rightarrow> bool" where
  "blank s = list_all is_space s"

text \<open>What every accepted entry looks like.\<close>

definition clean_field :: "pystr \<Rightarrow> bool" where
  "clean_field s = (colon \<notin> set s \<and> \<not> starts_with_space s \<and> \<not> ends_with_space s)"

definition valid_entry :: "pystr \<times> pystr \<times> pystr \<Rightarrow> bool" where
  "valid_entry e =
     (case e of (hangul, hanja, meaning) \<Rightarrow>
        clean_field hangul \<and> clean_field hanja \<and> clean_field meaning
        \<and> hangul \<noteq> [] \<and> hanja \<noteq> [])"

section \<open>Files and the database\<close>

text \<open>The exceptions the build can end with.\<close>

datatype error =
    FileNotFoundError
  | PermissionError
  | UnicodeDecodeError
  | OperationalError
  | DatabaseError

text \<open>
  One record of the table \<^verbatim>\<open>hanja\<close>; \<open>row_id\<close> is the column \<^verbatim>\<open>id\<close>.
\<close>

record hanja_row =
  row_id :: nat
  hangul :: pystr
  hanja :: pystr
  meaning :: pystr
  frequency :: int

text \<open>
  A database file as far as the script uses it: whether the table and its index exist,
  the records in \<^verbatim>\<open>id\<close> order, and the largest \<^verbatim>\<open>id\<close> handed out so far
  (\<^verbatim>\<open>AUTOINCREMENT\<close>).
\<close>

record database =
  has_table :: bool
  has_index :: bool
  rows :: "hanja_row list"
  last_id :: nat

text \<open>
  What a file holds. \<open>Text ls\<close> is a text file whose lines, as the text-mode iterator
  yields them (line terminators included), are \<open>ls\<close>. \<open>Undecodable ls\<close> is a file that
  is not valid UTF-8: the iterator yields \<open>ls\<close> and then raises
  \<^verbatim>\<open>UnicodeDecodeError\<close> (how many lines come first depends on where the bad bytes
  are). \<open>Sqlite db\<close> is a database file.
\<close>

datatype content =
    Text "pystr list"
  | Undecodable "pystr list"
  | Sqlite database

record disk_file =
  readable :: bool
  content :: content

text \<open>
  The file system maps a path to the file there, if any. Only what the script touches
  is described: plain files that can always be removed and created (no directories, no
  write protection of the output location).
\<close>

type_synonym path = string
type_synonym filesystem = "path \<Rightarrow> disk_file option"

definition os_path_exists :: "filesystem \<Rightarrow> path \<Rightarrow> bool" where
  "os_path_exists fs p = (fs p \<noteq> None)"

definition os_remove :: "filesystem \<Rightarrow> path \<Rightarrow> filesystem" where
  "os_remove fs p = fs(p := None)"

text \<open>
  \<^verbatim>\<open>open(p, "r", encoding="utf-8")\<close> and the iteration over its lines: the lines
  read, and whether the iteration ends in a decoding error. A database file is binary
  and is read as a decoding error before the first line.
\<close>

definition open_text :: "filesystem \<Rightarrow> path \<Rightarrow> error + pystr list \<times> bool" where
  "open_text fs p =
     (case fs p of
        None \<Rightarrow> Inl FileNotFoundError
      | Some f \<Rightarrow>
          if \<not> readable f then Inl PermissionError
          else (case content f of
                  Text ls \<Rightarrow> Inr (ls, False)
                | Undecodable ls \<Rightarrow> Inr (ls, True)
                | Sqlite db \<Rightarrow> Inr ([], True)))"

text \<open>
  A connection: the path of its database file and the database as the connection sees
  it, uncommitted insertions included. The file holds what was last committed.
\<close>

record connection =
  db_path :: path
  view :: database

definition empty_database :: database where
  "empty_database = \<lparr>has_table = False, has_index = False, rows = [], last_id = 0\<rparr>"

definition write_database :: "filesystem \<Rightarrow> connection \<Rightarrow> filesystem" where
  "write_database fs conn =
     fs(db_path conn \<mapsto> \<lparr>readable = True, content = Sqlite (view conn)\<rparr>)"

text \<open>
  \<^verbatim>\<open>sqlite3.connect(p)\<close>: a path with no file gets a new, empty database file; a
  file that is not a database is refused.
\<close>

definition sqlite3_connect :: "filesystem \<Rightarrow> path \<Rightarrow> error + filesystem \<times> connection" where
  "sqlite3_connect fs p =
     (case fs p of
        None \<Rightarrow>
          (let conn = \<lparr>db_path = p, view = empty_database\<rparr>
           in Inr (write_database fs conn, conn))
      | Some f \<Rightarrow>
          (case content f of
             Sqlite db \<Rightarrow> Inr (fs, \<lparr>db_path = p, view = db\<rparr>)
           | _ \<Rightarrow> Inl DatabaseError))"

text \<open>
  \<^verbatim>\<open>CREATE TABLE hanja (...)\<close> and \<^verbatim>\<open>CREATE INDEX idx_hanja_hangul ON hanja(hangul)\<close>.
  The module opens no transaction for a schema statement, so each one is written to the
  file when it is executed.
\<close>

definition execute_create_table ::
  "filesystem \<Rightarrow> connection \<Rightarrow> error + filesystem \<times> connection" where
  "execute_create_table fs conn =
     (if has_table (view conn) then Inl OperationalError
      else
        let conn' = conn\<lparr>view := (view conn)\<lparr>has_table := True\<rparr>\<rparr>
        in Inr (write_database fs conn', conn'))"

definition execute_create_index ::
  "filesystem \<Rightarrow> connection \<Rightarrow> error + filesystem \<times> connection" where
  "execute_create_index fs conn =
     (if \<not> has_table (view conn) \<or> has_index (view conn) then Inl OperationalError
      else
        let conn' = conn\<lparr>view := (view conn)\<lparr>has_index := True\<rparr>\<rparr>
        in Inr (write_database fs conn', conn'))"

text \<open>
  \<^verbatim>\<open>INSERT INTO hanja (hangul, hanja, meaning, frequency) VALUES (?, ?, ?, 0)\<close>: the
  new record gets the next \<^verbatim>\<open>id\<close> and frequency 0. An insertion belongs to the open
  transaction: it changes the connection's view, not the file.
\<close>

definition new_row :: "nat \<Rightarrow> pystr \<times> pystr \<times> pystr \<Rightarrow> hanja_row" where
  "new_row i entry =
     (case entry of (h, j, m) \<Rightarrow>
        \<lparr>row_id = i, hangul = h, hanja = j, meaning = m, frequency = 0\<rparr>)"

definition append_row :: "database \<Rightarrow> pystr \<times> pystr \<times> pystr \<Rightarrow> database" where
  "append_row db entry =
     db\<lparr>rows := rows db @ [new_row (Suc (last_id db)) entry], last_id := Suc (last_id db)\<rparr>"

definition execute_insert :: "connection \<Rightarrow> pystr \<times> pystr \<times> pystr \<Rightarrow> error + connection" where
  "execute_insert conn entry =
     (if \<not> has_table (view conn) then Inl OperationalError
      else Inr (conn\<lparr>view := append_row (view conn) entry\<rparr>))"

text \<open>\<^verbatim>\<open>conn.commit()\<close>: the connection's view becomes the file.\<close>

definition commit :: "filesystem \<Rightarrow> connection \<Rightarrow> filesystem" where
  "commit fs conn = write_database fs conn"

section \<open>The build\<close>

text \<open>
  The loop over the lines of the input: every line the parser accepts is inserted and
  counted, every other line is skipped.
\<close>

fun insert_lines :: "connection \<Rightarrow> nat \<Rightarrow> pystr list \<Rightarrow> error + connection \<times> nat" where
  "insert_lines conn cnt [] = Inr (conn, cnt)"
| "insert_lines conn cnt (line # ls) =
     (case parse_hanja_line line of
        None \<Rightarrow> insert_lines conn cnt ls
      | Some entry \<Rightarrow>
          (case execute_insert conn entry of
             Inl e \<Rightarrow> Inl e
           | Inr conn' \<Rightarrow> insert_lines conn' (cnt + 1) ls))"

text \<open>
  \<^verbatim>\<open>build_database(input_path, output_path)\<close>, as a function of the file system: the
  exception it ends with, or the number of entries it reports, and the file system it
  leaves. An exception leaves the file system as the last completed statement left it:
  the insertions of the open transaction are not written. (The size the script prints
  after the cnt is left out.)
\<close>

definition build_database ::
  "filesystem \<Rightarrow> path \<Rightarrow> path \<Rightarrow> (error + nat) \<times> filesystem" where
  "build_database fs input_path output_path =
     (let fs1 = (if os_path_exists fs output_path then os_remove fs output_path else fs)
      in case sqlite3_connect fs1 output_path of
           Inl e \<Rightarrow> (Inl e, fs1)
         | Inr (fs2, conn) \<Rightarrow>
      (case execute_create_table fs2 conn of
           Inl e \<Rightarrow> (Inl e, fs2)
         | Inr (fs3, conn1) \<Rightarrow>
      (case execute_create_index fs3 conn1 of
           Inl e \<Rightarrow> (Inl e, fs3)
         | Inr (fs4, conn2) \<Rightarrow>
      (case open_text fs4 input_path of
           Inl e \<Rightarrow> (Inl e, fs4)
         | Inr (ls, decode_error) \<Rightarrow>
      (case insert_lines conn2 0 ls of
           Inl e \<Rightarrow> (Inl e, fs4)
         | Inr (conn3, cnt) \<Rightarrow>
             if decode_error then (Inl UnicodeDecodeError, fs4)
             else (Inr cnt, commit fs4 conn3))))))"

section \<open>Notions used to state the properties\<close>

text \<open>The entries the parser accepts among the lines of an input, in input order.\<close>

definition accepted_entries :: "pystr list \<Rightarrow> (pystr \<times> pystr \<times> pystr) list" where
  "accepted_entries ls = List.map_filter parse_hanja_line ls"

text \<open>The records that inserting \<open>es\<close> in order creates after \<open>k\<close> earlier insertions.\<close>

fun inserted_rows :: "nat \<Rightarrow> (pystr \<times> pystr \<times> pystr) list \<Rightarrow> hanja_row list" where
  "inserted_rows k [] = []"
| "inserted_rows k (e # es) = new_row (Suc k) e # inserted_rows (Suc k) es"

text \<open>The database file a build creates before it opens its input.\<close>

definition schema_only :: database where
  "schema_only = \<lparr>has_table = True, has_index = True, rows = [], last_id = 0\<rparr>"

text \<open>The database file of a completed build from the entries \<open>es\<close>.\<close>

definition built_database :: "(pystr \<times> pystr \<times> pystr) list \<Rightarrow> database" where
  "built_database es =
     \<lparr>has_table = True, has_index = True, rows = inserted_rows 0 es, last_id = length es\<rparr>"

definition database_file :: "database \<Rightarrow> disk_file" where
  "database_file db = \<lparr>readable = True, content = Sqlite db\<rparr>"

text \<open>The database at a path, if the file there is one.\<close>

definition database_at :: "filesystem \<Rightarrow> path \<Rightarrow> database option" where
  "database_at fs p =
     (case fs p of
        None \<Rightarrow> None
      | Some f \<Rightarrow> (case content f of Sqlite db \<Rightarrow> Some db | _ \<Rightarrow> None))"

text \<open>A record without its \<^verbatim>\<open>id\<close>.\<close>

definition row_tuple :: "hanja_row \<Rightarrow> pystr \<times> pystr \<times> pystr \<times> int" where
  "row_tuple r = (hangul r, hanja r, meaning r, frequency r)"

text \<open>
  Modelled from the spec: the lookup by hangul of the component that reads the
  database, which is not part of the build script: the records whose \<^verbatim>\<open>hangul\<close>
  column equals the key, in \<^verbatim>\<open>id\<close> order.
\<close>

definition lookup :: "database \<Rightarrow> pystr \<Rightarrow> hanja_row list" where
  "lookup db key = filter (\<lambda>r. hangul r = key) (rows db)"

text \<open>An input that cannot be read: missing, not readable, or not a UTF-8 text.\<close>

definition unreadable_input :: "filesystem \<Rightarrow> path \<Rightarrow> bool" where
  "unreadable_input fs p =
     (case fs p of
        None \<Rightarrow> True
      | Some f \<Rightarrow>
          (if readable f then (case content f of Text ls \<Rightarrow> False | _ \<Rightarrow> True) else True))"

text \<open>
  The input of the end-to-end scenario, five lines: the syllables U+AC00, U+B098 and
  U+B2E4 and the characters U+6687 and U+90A3 are given by code point.
\<close>

definition hangul_ga :: codepoint where
  "hangul_ga = 44032"

definition hangul_na :: codepoint where
  "hangul_na = 45208"

definition hangul_da :: codepoint where
  "hangul_da = 45796"

definition hanja_leisure :: codepoint where
  "hanja_leisure = 26247"

definition hanja_that :: codepoint where
  "hanja_that = 37027"

definition scenario_lines :: "pystr list" where
  "scenario_lines =
     [hangul_ga # ustr '':family:false reading example'' @ [newline],
      ustr ''# comment line'' @ [newline],
      hangul_ga # colon # hanja_leisure # ustr '':leisure'' @ [newline],
      ustr ''malformed line without colons'' @ [newline],
      hangul_na # colon # hanja_that # ustr '':that'' @ [newline]]"

text \<open>
  File systems for concrete checks: the empty one; one with an input of one entry and
  one comment and an earlier database of two records at the output path; one with the
  input of the scenario only.
\<close>

definition sample_lines :: "pystr list" where
  "sample_lines = [ustr ''a:b:c'' @ [newline], ustr ''# note'' @ [newline]]"

definition sample_old :: database where
  "sample_old = built_database [(ustr ''x'', ustr ''y'', ustr ''z''), (ustr ''u'', ustr ''v'', [])]"

definition no_files :: filesystem where
  "no_files = (\<lambda>p. None)"

definition sample_fs :: filesystem where
  "sample_fs =
     no_files(''hanja.txt'' \<mapsto> \<lparr>readable = True, content = Text sample_lines\<rparr>,
              ''hanja.db'' \<mapsto> database_file sample_old)"

definition scenario_fs :: filesystem where
  "scenario_fs =
     no_files(''hanja.txt'' \<mapsto> \<lparr>readable = True, content = Text scenario_lines\<rparr>)"

section \<open>Properties of the text operations\<close>

lemma colon_not_space: "\<not> is_space colon"
  by (simp add: is_space_def colon_def)

lemma hash_not_space: "\<not> is_space hash"
  by (simp add: is_space_def hash_def)

lemma lstrip_Nil: "lstrip [] = []"
  by (simp add: lstrip_def)

lemma rstrip_Nil: "rstrip [] = []"
  by (simp add: rstrip_def)

lemma strip_Nil: "strip [] = []"
  by (simp add: strip_def lstrip_def rstrip_def)

lemma lstrip_keep: "\<not> is_space c \<Longrightarrow> lstrip (a @ c # r) = lstrip a @ c # r"
  by (simp add: lstrip_def dropWhile_append)

lemma rstrip_keep: "\<not> is_space c \<Longrightarrow> rstrip (r @ c # a) = r @ c # rstrip a"
  by (simp add: rstrip_def dropWhile_append)

lemma lstrip_blank: "blank s \<Longrightarrow> lstrip s = []"
  by (simp add: lstrip_def blank_def list_all_iff)

lemma rstrip_blank: "blank s \<Longrightarrow> rstrip s = []"
  by (simp add: rstrip_def blank_def list_all_iff)

lemma strip_blank: "blank s \<Longrightarrow> strip s = []"
  by (simp add: strip_def lstrip_blank rstrip_Nil)

lemma not_blank_decomp:
  assumes "\<not> blank s"
  shows "\<exists>a c r. s = a @ c # r \<and> blank a \<and> \<not> is_space c"
proof -
  from assms have ne: "dropWhile is_space s \<noteq> []"
    by (auto simp: blank_def list_all_iff)
  then obtain c r where d: "dropWhile is_space s = c # r"
    by (cases "dropWhile is_space s") auto
  have "\<not> is_space c"
    using hd_dropWhile [OF ne] d by simp
  moreover have "s = takeWhile is_space s @ c # r"
    using takeWhile_dropWhile_id [of is_space s] d by simp
  moreover have "blank (takeWhile is_space s)"
    by (auto simp: blank_def list_all_iff dest: set_takeWhileD)
  ultimately show ?thesis by blast
qed

lemma lstrip_rstrip_commute: "lstrip (rstrip s) = rstrip (lstrip s)"
proof (cases "blank s")
  case True
  then show ?thesis by (simp add: lstrip_blank rstrip_blank lstrip_Nil rstrip_Nil)
next
  case False
  then obtain a c r where s: "s = a @ c # r" and a: "blank a" and c: "\<not> is_space c"
    using not_blank_decomp by blast
  have "lstrip (rstrip s) = lstrip (a @ c # rstrip r)"
    by (simp add: s rstrip_keep [OF c])
  also have "\<dots> = c # rstrip r"
    by (simp add: lstrip_keep [OF c] lstrip_blank [OF a])
  also have "\<dots> = rstrip ([] @ c # r)"
    by (simp only: rstrip_keep [OF c]) simp
  also have "\<dots> = rstrip (lstrip s)"
    by (simp add: s lstrip_keep [OF c] lstrip_blank [OF a])
  finally show ?thesis .
qed

lemma lstrip_idem: "lstrip (lstrip s) = lstrip s"
  by (simp add: lstrip_def)

lemma rstrip_idem: "rstrip (rstrip s) = rstrip s"
  by (simp add: rstrip_def)

lemma strip_lstrip: "strip (lstrip s) = strip s"
  by (simp add: strip_def lstrip_idem)

lemma strip_rstrip: "strip (rstrip s) = strip s"
  by (simp add: strip_def lstrip_rstrip_commute rstrip_idem)

lemma strip_idem: "strip (strip s) = strip s"
  by (simp add: strip_def lstrip_rstrip_commute rstrip_idem lstrip_idem)

lemma set_lstrip: "set (lstrip s) \<subseteq> set s"
  by (auto simp: lstrip_def dest: set_dropWhileD)

lemma set_rstrip: "set (rstrip s) \<subseteq> set s"
  by (auto simp: rstrip_def dest: set_dropWhileD)

lemma set_strip: "set (strip s) \<subseteq> set s"
  using set_lstrip set_rstrip by (fastforce simp: strip_def)

lemma strip_eq_Nil_iff: "strip s = [] \<longleftrightarrow> blank s"
proof
  assume "strip s = []"
  show "blank s"
  proof (rule ccontr)
    assume "\<not> blank s"
    then obtain a c r where s: "s = a @ c # r" and a: "blank a" and c: "\<not> is_space c"
      using not_blank_decomp by blast
    have "strip s = c # rstrip r"
      using rstrip_keep [OF c, of "[]" r]
      by (simp add: strip_def s lstrip_keep [OF c] lstrip_blank [OF a])
    with \<open>strip s = []\<close> show False by simp
  qed
next
  assume "blank s"
  then show "strip s = []" by (rule strip_blank)
qed

lemma lstrip_no_leading: "\<not> starts_with_space (lstrip s)"
proof (cases "dropWhile is_space s")
  case Nil
  then show ?thesis
    by (simp add: starts_with_space_def lstrip_def del: dropWhile_eq_Nil_conv)
next
  case (Cons c r)
  then have "\<not> is_space c"
    using hd_dropWhile [of is_space s] by simp
  with Cons show ?thesis by (simp add: starts_with_space_def lstrip_def)
qed

lemma rstrip_no_trailing: "\<not> ends_with_space (rstrip s)"
  using lstrip_no_leading [of "rev s"]
  by (simp add: ends_with_space_def rstrip_def lstrip_def)

lemma strip_no_trailing: "\<not> ends_with_space (strip s)"
  by (simp add: strip_def rstrip_no_trailing)

lemma strip_no_leading: "\<not> starts_with_space (strip s)"
  by (simp add: strip_def lstrip_rstrip_commute [symmetric] lstrip_no_leading)

lemma split_from_nonempty: "split_from sep cur s \<noteq> []"
  by (induction s arbitrary: cur) auto

lemma split_from_field:
  "sep \<notin> set a \<Longrightarrow> split_from sep cur (a @ sep # r) = (cur @ a) # split_from sep [] r"
  by (induction a arbitrary: cur) auto

lemma split_from_last: "sep \<notin> set a \<Longrightarrow> split_from sep cur a = [cur @ a]"
  by (induction a arbitrary: cur) auto

lemma split_from_sep_free:
  "sep \<notin> set cur \<Longrightarrow> \<forall>p\<in>set (split_from sep cur s). sep \<notin> set p"
proof (induction s arbitrary: cur)
  case Nil
  then show ?case by simp
next
  case (Cons c s)
  show ?case
  proof (cases "c = sep")
    case True
    with Cons.prems Cons.IH [of "[]"] show ?thesis by simp
  next
    case False
    with Cons.prems Cons.IH [of "cur @ [c]"] show ?thesis by simp
  qed
qed

lemma split_str_field:
  "sep \<notin> set a \<Longrightarrow> split_str (a @ sep # r) sep = a # split_str r sep"
  by (simp add: split_str_def split_from_field)

lemma split_str_last: "sep \<notin> set a \<Longrightarrow> split_str a sep = [a]"
  by (simp add: split_str_def split_from_last)

lemma split_str_sep_free: "p \<in> set (split_str s sep) \<Longrightarrow> sep \<notin> set p"
  using split_from_sep_free [of sep "[]" s] by (simp add: split_str_def)

section \<open>Properties of the parser\<close>

lemma parse_strip: "parse_hanja_line (strip s) = parse_hanja_line s"
  by (simp add: parse_hanja_line_def strip_idem)

lemma strip_line:
  "strip (A @ colon # M @ colon # C) = lstrip A @ colon # M @ colon # rstrip C"
proof -
  have "lstrip (A @ colon # M @ colon # C) = lstrip A @ colon # M @ colon # C"
    by (rule lstrip_keep [OF colon_not_space])
  moreover have "rstrip ((lstrip A @ colon # M) @ colon # C)
      = (lstrip A @ colon # M) @ colon # rstrip C"
    by (rule rstrip_keep [OF colon_not_space])
  ultimately show ?thesis by (simp add: strip_def)
qed

lemma startswith_hash_line:
  "startswith (lstrip A @ colon # X) [hash] = startswith (strip A) [hash]"
proof (cases "blank A")
  case True
  then show ?thesis
    by (simp add: lstrip_blank strip_blank startswith_def colon_def hash_def)
next
  case False
  then obtain a c r where A: "A = a @ c # r" and a: "blank a" and c: "\<not> is_space c"
    using not_blank_decomp by blast
  have l: "lstrip A = c # r"
    by (simp add: A lstrip_keep [OF c] lstrip_blank [OF a])
  have "strip A = c # rstrip r"
    using rstrip_keep [OF c, of "[]" r] by (simp add: strip_def l)
  with l show ?thesis by (simp add: startswith_def)
qed

text \<open>
  What the parser returns on a line whose first three fields are \<open>A\<close>, \<open>B\<close> and
  \<open>C\<close>: first when \<open>C\<close> is the last field, then when more text follows it.
\<close>

lemma parse_three_fields:
  assumes "colon \<notin> set A" and "colon \<notin> set B" and "colon \<notin> set C"
  shows "parse_hanja_line (A @ colon # B @ colon # C) =
     (if startswith (strip A) [hash] \<or> strip A = [] \<or> strip B = [] then None
      else Some (strip A, strip B, strip C))"
proof -
  have A: "colon \<notin> set (lstrip A)" and C: "colon \<notin> set (rstrip C)"
    using assms set_lstrip [of A] set_rstrip [of C] by auto
  have parts: "split_str (lstrip A @ colon # B @ colon # rstrip C) colon
      = [lstrip A, B, rstrip C]"
    by (simp add: split_str_field [OF A] split_str_field [OF assms(2)] split_str_last [OF C])
  show ?thesis
    by (simp add: parse_hanja_line_def strip_line parts startswith_hash_line
        strip_lstrip strip_rstrip)
qed

lemma parse_more_fields:
  assumes "colon \<notin> set A" and "colon \<notin> set B" and "colon \<notin> set C"
  shows "parse_hanja_line (A @ colon # B @ colon # C @ colon # R) =
     (if startswith (strip A) [hash] \<or> strip A = [] \<or> strip B = [] then None
      else Some (strip A, strip B, strip C))"
proof -
  have A: "colon \<notin> set (lstrip A)"
    using assms set_lstrip [of A] by auto
  have s: "strip (A @ colon # B @ colon # C @ colon # R)
      = lstrip A @ colon # B @ colon # C @ colon # rstrip R"
    using strip_line [of A "B @ colon # C" R] by simp
  obtain p ps where rest: "split_str (rstrip R) colon = p # ps"
    using split_from_nonempty [of colon "[]" "rstrip R"]
    by (cases "split_str (rstrip R) colon") (auto simp: split_str_def)
  have parts: "split_str (lstrip A @ colon # B @ colon # C @ colon # rstrip R) colon
      = lstrip A # B # C # p # ps"
    by (simp add: split_str_field [OF A] split_str_field [OF assms(2)]
        split_str_field [OF assms(3)] rest)
  show ?thesis
    by (simp add: parse_hanja_line_def s parts startswith_hash_line strip_lstrip)
qed

lemma split_from_next:
  "split_from sep cur s = f # g # gs \<Longrightarrow>
     \<exists>a r. s = a @ sep # r \<and> sep \<notin> set a \<and> f = cur @ a \<and> split_from sep [] r = g # gs"
proof (induction s arbitrary: cur)
  case Nil
  then show ?case by simp
next
  case (Cons c s)
  show ?case
  proof (cases "c = sep")
    case True
    with Cons.prems have "f = cur" and "split_from sep [] s = g # gs"
      by simp_all
    with True have "c # s = [] @ sep # s \<and> sep \<notin> set [] \<and> f = cur @ []
        \<and> split_from sep [] s = g # gs"
      by simp
    then show ?thesis by blast
  next
    case False
    with Cons.prems have "split_from sep (cur @ [c]) s = f # g # gs"
      by simp
    from Cons.IH [OF this] obtain a r where
      "s = a @ sep # r" "sep \<notin> set a" "f = (cur @ [c]) @ a" "split_from sep [] r = g # gs"
      by blast
    with False have "c # s = (c # a) @ sep # r \<and> sep \<notin> set (c # a) \<and> f = cur @ (c # a)
        \<and> split_from sep [] r = g # gs"
      by simp
    then show ?thesis by blast
  qed
qed

lemma split_str_four:
  assumes "split_str s sep = f0 # f1 # f2 # f3 # fs"
  shows "\<exists>r. s = f0 @ sep # f1 @ sep # f2 @ sep # r
      \<and> sep \<notin> set f0 \<and> sep \<notin> set f1 \<and> sep \<notin> set f2"
proof -
  from assms have "split_from sep [] s = f0 # f1 # f2 # f3 # fs"
    by (simp add: split_str_def)
  from split_from_next [OF this] obtain r0 where
    s0: "s = f0 @ sep # r0" "sep \<notin> set f0" and n0: "split_from sep [] r0 = f1 # f2 # f3 # fs"
    by auto
  from split_from_next [OF n0] obtain r1 where
    s1: "r0 = f1 @ sep # r1" "sep \<notin> set f1" and n1: "split_from sep [] r1 = f2 # f3 # fs"
    by auto
  from split_from_next [OF n1] obtain r2 where
    s2: "r1 = f2 @ sep # r2" "sep \<notin> set f2"
    by auto
  from s0 s1 s2 show ?thesis by simp
qed

lemma clean_field_strip: "colon \<notin> set s \<Longrightarrow> clean_field (strip s)"
  using set_strip [of s] by (auto simp: clean_field_def strip_no_leading strip_no_trailing)

lemma parse_valid:
  assumes "parse_hanja_line line = Some e"
  shows "valid_entry e"
proof -
  let ?parts = "split_str (strip line) colon"
  from assms have len: "3 \<le> length ?parts"
    and e: "e = (strip (?parts ! 0), strip (?parts ! 1), strip (?parts ! 2))"
    and ne: "strip (?parts ! 0) \<noteq> []" "strip (?parts ! 1) \<noteq> []"
    by (auto simp: parse_hanja_line_def Let_def split: if_splits)
  from len have "?parts ! 0 \<in> set ?parts" "?parts ! 1 \<in> set ?parts" "?parts ! 2 \<in> set ?parts"
    by (auto intro!: nth_mem)
  then have "colon \<notin> set (?parts ! 0)" "colon \<notin> set (?parts ! 1)" "colon \<notin> set (?parts ! 2)"
    by (simp_all add: split_str_sep_free)
  then show ?thesis
    using ne by (simp add: e valid_entry_def clean_field_strip)
qed

section \<open>Properties of the build\<close>

lemma insert_lines_result:
  "has_table (view conn) \<Longrightarrow>
   insert_lines conn n ls =
     Inr (conn\<lparr>view := fold (\<lambda>e db. append_row db e) (accepted_entries ls) (view conn)\<rparr>,
          n + length (accepted_entries ls))"
proof (induction ls arbitrary: conn n)
  case Nil
  then show ?case by (simp add: accepted_entries_def List.map_filter_simps)
next
  case (Cons l ls)
  show ?case
  proof (cases "parse_hanja_line l")
    case None
    with Cons show ?thesis
      by (simp add: accepted_entries_def List.map_filter_simps)
  next
    case (Some e)
    let ?conn = "conn\<lparr>view := append_row (view conn) e\<rparr>"
    have t: "has_table (view ?conn)"
      using Cons.prems by (simp add: append_row_def)
    show ?thesis
      using Cons.prems Some Cons.IH [OF t, of "n + 1"]
      by (simp add: accepted_entries_def List.map_filter_simps execute_insert_def)
  qed
qed

lemma fold_append_row:
  "fold (\<lambda>e db. append_row db e) es db =
     db\<lparr>rows := rows db @ inserted_rows (last_id db) es, last_id := last_id db + length es\<rparr>"
  by (induction es arbitrary: db) (simp_all add: append_row_def)

text \<open>
  The whole build in one equation: the output path holds the schema when the input is
  opened, and the records are written only if the input is read to its end.
\<close>

lemma build_database_eq:
  "build_database fs i p =
     (let fs4 = fs(p \<mapsto> database_file schema_only)
      in case open_text fs4 i of
           Inl e \<Rightarrow> (Inl e, fs4)
         | Inr (ls, decode_error) \<Rightarrow>
             if decode_error then (Inl UnicodeDecodeError, fs4)
             else (Inr (length (accepted_entries ls)),
                   fs(p \<mapsto> database_file (built_database (accepted_entries ls)))))"
proof -
  let ?fs1 = "if os_path_exists fs p then os_remove fs p else fs"
  have none: "?fs1 p = None"
    by (simp add: os_path_exists_def os_remove_def)
  have upd: "\<And>f. ?fs1(p \<mapsto> f) = fs(p \<mapsto> f)"
    by (simp add: os_path_exists_def os_remove_def)
  let ?conn2 = "\<lparr>db_path = p, view = schema_only\<rparr>"
  have ins: "\<And>ls. insert_lines ?conn2 0 ls =
      Inr (\<lparr>db_path = p, view = built_database (accepted_entries ls)\<rparr>,
           length (accepted_entries ls))"
    by (simp add: insert_lines_result fold_append_row schema_only_def built_database_def)
  show ?thesis
    unfolding build_database_def Let_def
    by (simp add: sqlite3_connect_def none write_database_def upd empty_database_def
        execute_create_table_def execute_create_index_def Let_def commit_def ins
        schema_only_def [symmetric] database_file_def
        split: sum.split prod.split)
qed

lemma inserted_rows_mem:
  "row \<in> set (inserted_rows k es) \<Longrightarrow> \<exists>e n. e \<in> set es \<and> row = new_row n e"
proof (induction es arbitrary: k)
  case Nil
  then show ?case by simp
next
  case (Cons e es)
  then have "row = new_row (Suc k) e \<or> row \<in> set (inserted_rows (Suc k) es)"
    by simp
  then show ?case
  proof
    assume "row = new_row (Suc k) e"
    then have "e \<in> set (e # es) \<and> row = new_row (Suc k) e"
      by simp
    then show ?thesis by blast
  next
    assume "row \<in> set (inserted_rows (Suc k) es)"
    from Cons.IH [OF this] obtain e' n where "e' \<in> set es" and "row = new_row n e'"
      by blast
    then have "e' \<in> set (e # es) \<and> row = new_row n e'"
      by simp
    then show ?thesis by blast
  qed
qed

lemma length_inserted_rows: "length (inserted_rows k es) = length es"
  by (induction es arbitrary: k) simp_all

lemma row_tuple_inserted_rows:
  "map row_tuple (inserted_rows k es) = map (\<lambda>(h, j, m). (h, j, m, 0)) es"
  by (induction es arbitrary: k) (auto simp: row_tuple_def new_row_def)

lemma accepted_entries_mem:
  "e \<in> set (accepted_entries ls) \<Longrightarrow> \<exists>l. parse_hanja_line l = Some e"
  by (auto simp: accepted_entries_def List.map_filter_def)

lemma accepted_entries_Nil: "accepted_entries [] = []"
  by (simp add: accepted_entries_def List.map_filter_simps)

lemma database_at_update:
  "database_at (fs(p \<mapsto> database_file db)) p = Some db"
  by (simp add: database_at_def database_file_def)

text \<open>A completed build, and a build whose input cannot be read.\<close>

lemma build_database_text:
  assumes "fs i = Some \<lparr>readable = True, content = Text ls\<rparr>" and "i \<noteq> p"
  shows "build_database fs i p =
     (Inr (length (accepted_entries ls)),
      fs(p \<mapsto> database_file (built_database (accepted_entries ls))))"
  using assms by (simp add: build_database_eq open_text_def)

lemma build_database_unreadable:
  assumes "unreadable_input fs i" and "i \<noteq> p"
  shows "build_database fs i p =
     (Inl (case fs i of
             None \<Rightarrow> FileNotFoundError
           | Some f \<Rightarrow> if readable f then UnicodeDecodeError else PermissionError),
      fs(p \<mapsto> database_file schema_only))"
  using assms
  by (auto simp: build_database_eq open_text_def unreadable_input_def
      split: option.splits content.splits if_splits)

text \<open>Whatever the build did, the database it leaves holds accepted entries only.\<close>

lemma build_database_leaves:
  assumes "build_database fs i p = (r, fs')" and "database_at fs' p = Some db"
  shows "\<exists>ls. db = built_database (accepted_entries ls)"
proof -
  have s: "schema_only = built_database (accepted_entries [])"
    by (simp add: schema_only_def built_database_def accepted_entries_Nil)
  from assms have "db = schema_only \<or> (\<exists>ls. db = built_database (accepted_entries ls))"
    by (auto simp: build_database_eq Let_def database_at_update
        split: sum.splits prod.splits if_splits)
  with s show ?thesis by metis
qed

section \<open>Evaluation on concrete lines\<close>

lemmas text_eval =
  ustr_def colon_def hash_def newline_def is_space_def lstrip_def rstrip_def strip_def
  startswith_def split_str_def parse_hanja_line_def Let_def

lemma length_at_least_four:
  "4 \<le> length xs \<Longrightarrow> \<exists>a b c d ys. xs = a # b # c # d # ys"
  by (auto simp: numeral_eq_Suc Suc_le_length_iff)

lemma blank_no_colon: "blank s \<Longrightarrow> colon \<notin> set s"
  using colon_not_space by (auto simp: blank_def list_all_iff)

section \<open>The specification of the parser\<close>

text \<open>
  C1, as amended. For a line \<open>A:B:C\<close> whose three fields contain no colon and whose
  first two fields are not empty after trimming, the parser returns the entry
  \<open>(trim A, trim B, trim C)\<close> unless the trimmed \<open>A\<close> begins with \<open>#\<close>; then the
  line is a comment and the parser returns nothing.
\<close>

theorem parse_three_field_line:
  assumes "colon \<notin> set A" and "colon \<notin> set B" and "colon \<notin> set C"
    and "strip A \<noteq> []" and "strip B \<noteq> []"
  shows "parse_hanja_line (A @ colon # B @ colon # C) =
     (if startswith (strip A) [hash] then None else Some (strip A, strip B, strip C))"
  using assms by (simp add: parse_three_fields)

theorem parse_three_field_line_witness:
  "colon \<notin> set (ustr '' a '') \<and> colon \<notin> set (ustr ''b c'') \<and> colon \<notin> set (ustr '' d  '')
   \<and> strip (ustr '' a '') \<noteq> [] \<and> strip (ustr ''b c'') \<noteq> []
   \<and> parse_hanja_line (ustr '' a '' @ colon # ustr ''b c'' @ colon # ustr '' d  '')
       = Some (ustr ''a'', ustr ''b c'', ustr ''d'')"
proof -
  have h: "colon \<notin> set (ustr '' a '')" "colon \<notin> set (ustr ''b c'')"
    "colon \<notin> set (ustr '' d  '')" "strip (ustr '' a '') \<noteq> []" "strip (ustr ''b c'') \<noteq> []"
    by (simp_all add: text_eval)
  from parse_three_field_line [OF h] h show ?thesis
    by (simp add: text_eval)
qed

text \<open>
  C1 without the exception fails on a comment line with three fields: in \<open>#a:b:c\<close>
  the first two fields are not empty after trimming, and the line is rejected.
\<close>

theorem parse_three_field_line_counterexample:
  "colon \<notin> set (ustr ''#a'') \<and> colon \<notin> set (ustr ''b'') \<and> colon \<notin> set (ustr ''c'')
   \<and> strip (ustr ''#a'') \<noteq> [] \<and> strip (ustr ''b'') \<noteq> []
   \<and> parse_hanja_line (ustr ''#a'' @ colon # ustr ''b'' @ colon # ustr ''c'') = None
   \<and> parse_hanja_line (ustr ''#a'' @ colon # ustr ''b'' @ colon # ustr ''c'')
       \<noteq> Some (strip (ustr ''#a''), strip (ustr ''b''), strip (ustr ''c''))"
  by (simp add: text_eval)

text \<open>
  C2. The parser rejects the empty line, the blank line, the comment, the line with two
  fields, the line with an empty hangul and the line with an empty hanja.
\<close>

theorem parse_rejects:
  "parse_hanja_line (ustr '''') = None
   \<and> parse_hanja_line (ustr ''   '') = None
   \<and> parse_hanja_line (ustr ''# comment'') = None
   \<and> parse_hanja_line (ustr ''onlytwo:fields'') = None
   \<and> parse_hanja_line (ustr '':hanja:meaning'') = None
   \<and> parse_hanja_line (ustr ''hangul::meaning'') = None"
  by (simp add: text_eval)

text \<open>
  C8, as amended. When the trimmed line splits into four or more fields, the result is
  decided by the first three: it is the result for the line cut after its third field.
  The parser returns nothing when the trimmed line begins with \<open>#\<close> or the trimmed
  first or second field is empty; otherwise it returns the three trimmed fields, so the
  meaning is the trimmed third field, and a colon inside the text meant as the meaning
  cuts the stored meaning at that colon.
\<close>

theorem parse_ignores_extra_fields:
  assumes "4 \<le> length (split_str (strip line) colon)"
  shows "(let parts = split_str (strip line) colon;
              f0 = parts ! 0; f1 = parts ! 1; f2 = parts ! 2
          in parse_hanja_line line = parse_hanja_line (f0 @ colon # f1 @ colon # f2)
             \<and> parse_hanja_line line =
                 (if startswith (strip line) [hash] \<or> strip f0 = [] \<or> strip f1 = [] then None
                  else Some (strip f0, strip f1, strip f2)))"
proof -
  from assms obtain f0 f1 f2 f3 fs where
    parts: "split_str (strip line) colon = f0 # f1 # f2 # f3 # fs"
    using length_at_least_four by blast
  from split_str_four [OF parts] obtain r where
    line: "strip line = f0 @ colon # f1 @ colon # f2 @ colon # r"
    and free: "colon \<notin> set f0" "colon \<notin> set f1" "colon \<notin> set f2"
    by blast
  have "parse_hanja_line line = parse_hanja_line (f0 @ colon # f1 @ colon # f2 @ colon # r)"
    using parse_strip [of line] by (simp add: line)
  then have more: "parse_hanja_line line =
      (if startswith (strip f0) [hash] \<or> strip f0 = [] \<or> strip f1 = [] then None
       else Some (strip f0, strip f1, strip f2))"
    by (simp add: parse_more_fields [OF free])
  have hash0: "startswith (strip line) [hash] = startswith (strip f0) [hash]"
  proof (cases f0)
    case Nil
    then show ?thesis
      by (simp add: line startswith_def strip_Nil colon_def hash_def)
  next
    case (Cons c f0')
    with strip_no_leading [of line] have c: "\<not> is_space c"
      by (simp add: line starts_with_space_def)
    have "strip (c # f0') = c # rstrip f0'"
      using lstrip_keep [OF c, of "[]" f0'] rstrip_keep [OF c, of "[]" f0']
      by (simp add: strip_def lstrip_Nil)
    with Cons show ?thesis
      by (simp add: line startswith_def)
  qed
  show ?thesis
    by (simp add: parts Let_def more hash0 parse_three_fields [OF free])
qed

theorem parse_ignores_extra_fields_witness:
  "4 \<le> length (split_str (strip (ustr ''a:b:leisure: free time'')) colon)
   \<and> parse_hanja_line (ustr ''a:b:leisure: free time'') = parse_hanja_line (ustr ''a:b:leisure'')
   \<and> parse_hanja_line (ustr ''a:b:leisure: free time'')
       = Some (ustr ''a'', ustr ''b'', ustr ''leisure'')"
proof -
  have h: "4 \<le> length (split_str (strip (ustr ''a:b:leisure: free time'')) colon)"
    by (simp add: text_eval)
  from parse_ignores_extra_fields [OF h] h show ?thesis
    by (simp add: text_eval)
qed

text \<open>
  C8 without the exceptions fails on the comment line \<open>#a:b:c:d\<close>: its trimmed text
  has four fields, the trimmed third field is \<open>c\<close>, and the parser returns no entry,
  hence no meaning.
\<close>

theorem parse_ignores_extra_fields_counterexample:
  "4 \<le> length (split_str (strip (ustr ''#a:b:c:d'')) colon)
   \<and> strip (split_str (strip (ustr ''#a:b:c:d'')) colon ! 2) = ustr ''c''
   \<and> parse_hanja_line (ustr ''#a:b:c:d'') = None"
  by (simp add: text_eval)

text \<open>
  C10, as amended. A line \<open>A:B:C\<close> whose third field is empty or blank, with \<open>A\<close>
  and \<open>B\<close> free of colons and not empty after trimming, yields an entry with the empty
  meaning unless the trimmed \<open>A\<close> begins with \<open>#\<close>, which makes the line a comment.
  Whether such a line is accepted does not depend on its third field.
\<close>

theorem parse_empty_meaning:
  assumes "colon \<notin> set A" and "colon \<notin> set B" and "blank C"
    and "strip A \<noteq> []" and "strip B \<noteq> []"
  shows "parse_hanja_line (A @ colon # B @ colon # C) =
           (if startswith (strip A) [hash] then None else Some (strip A, strip B, []))
         \<and> (\<forall>C'. colon \<notin> set C' \<longrightarrow>
               (parse_hanja_line (A @ colon # B @ colon # C') = None) =
               (parse_hanja_line (A @ colon # B @ colon # C) = None))"
  using assms blank_no_colon [of C]
  by (simp add: parse_three_fields strip_blank)

theorem parse_empty_meaning_witness:
  "colon \<notin> set (ustr ''a'') \<and> colon \<notin> set (ustr ''b'') \<and> blank (ustr ''   '')
   \<and> strip (ustr ''a'') \<noteq> [] \<and> strip (ustr ''b'') \<noteq> []
   \<and> parse_hanja_line (ustr ''a'' @ colon # ustr ''b'' @ colon # ustr ''   '')
       = Some (ustr ''a'', ustr ''b'', [])
   \<and> parse_hanja_line (ustr ''a:b:'') = Some (ustr ''a'', ustr ''b'', [])"
proof -
  have h: "colon \<notin> set (ustr ''a'')" "colon \<notin> set (ustr ''b'')" "blank (ustr ''   '')"
    "strip (ustr ''a'') \<noteq> []" "strip (ustr ''b'') \<noteq> []"
    by (simp_all add: text_eval blank_def)
  have e: "colon \<notin> set (ustr ''a'')" "colon \<notin> set (ustr ''b'')" "blank []"
    "strip (ustr ''a'') \<noteq> []" "strip (ustr ''b'') \<noteq> []"
    by (simp_all add: text_eval blank_def)
  from parse_empty_meaning [OF h] parse_empty_meaning [OF e] h show ?thesis
    by (simp add: text_eval)
qed

text \<open>
  C10 without the exception fails on \<open>#x:y:\<close> followed by blanks: the first two
  fields are not empty after trimming, the third is blank, and the line is rejected
  as a comment.
\<close>

theorem parse_empty_meaning_counterexample:
  "colon \<notin> set (ustr ''#x'') \<and> colon \<notin> set (ustr ''y'') \<and> blank (ustr ''   '')
   \<and> strip (ustr ''#x'') \<noteq> [] \<and> strip (ustr ''y'') \<noteq> []
   \<and> parse_hanja_line (ustr ''#x'' @ colon # ustr ''y'' @ colon # ustr ''   '') = None"
  by (simp add: text_eval blank_def)

section \<open>The specification of the build\<close>

lemma accepted_sample_lines: "accepted_entries sample_lines = [(ustr ''a'', ustr ''b'', ustr ''c'')]"
  by (simp add: accepted_entries_def List.map_filter_simps sample_lines_def text_eval)

lemma sample_fs_input:
  "sample_fs ''hanja.txt'' = Some \<lparr>readable = True, content = Text sample_lines\<rparr>"
  by (simp add: sample_fs_def)

lemma sample_fs_output: "database_at sample_fs ''hanja.db'' = Some sample_old"
  by (simp add: sample_fs_def database_at_def database_file_def)

lemma sample_paths: "''hanja.txt'' \<noteq> ''hanja.db''"
  by simp

text \<open>
  C3, as amended. If the input cannot be read (missing file, no permission, not UTF-8),
  the build ends with the corresponding error. By then it has removed any earlier file
  at the output path and created a new database there, which stays: it holds the table
  and the index and no record, since records inserted before a decoding error are
  never committed. No other file is changed.
\<close>

theorem build_unreadable_input:
  assumes "unreadable_input fs input_path" and "input_path \<noteq> output_path"
  shows "build_database fs input_path output_path =
           (Inl (case fs input_path of
                   None \<Rightarrow> FileNotFoundError
                 | Some f \<Rightarrow> if readable f then UnicodeDecodeError else PermissionError),
            fs(output_path \<mapsto> database_file schema_only))
         \<and> database_at (snd (build_database fs input_path output_path)) output_path
             = Some schema_only
         \<and> has_table schema_only \<and> has_index schema_only \<and> rows schema_only = []"
  using build_database_unreadable [OF assms]
  by (simp add: database_at_update schema_only_def)

theorem build_unreadable_input_witness:
  "unreadable_input (sample_fs(''hanja.txt'' \<mapsto> \<lparr>readable = True, content = Undecodable sample_lines\<rparr>))
     ''hanja.txt''
   \<and> ''hanja.txt'' \<noteq> ''hanja.db''
   \<and> fst (build_database
        (sample_fs(''hanja.txt'' \<mapsto> \<lparr>readable = True, content = Undecodable sample_lines\<rparr>))
        ''hanja.txt'' ''hanja.db'') = Inl UnicodeDecodeError
   \<and> database_at (snd (build_database
        (sample_fs(''hanja.txt'' \<mapsto> \<lparr>readable = True, content = Undecodable sample_lines\<rparr>))
        ''hanja.txt'' ''hanja.db'')) ''hanja.db'' = Some schema_only"
proof -
  let ?fs = "sample_fs(''hanja.txt'' \<mapsto> \<lparr>readable = True, content = Undecodable sample_lines\<rparr>)"
  have h: "unreadable_input ?fs ''hanja.txt''"
    by (simp add: unreadable_input_def)
  from build_unreadable_input [OF h sample_paths] h show ?thesis
    by (simp add: database_at_update)
qed

text \<open>
  C3 with "no file at the output path afterwards" fails when the input file is
  missing: starting from an empty file system the build ends with
  \<^verbatim>\<open>FileNotFoundError\<close>, and a database file with the table and the index and no
  record exists at the output path afterwards.
\<close>

theorem build_unreadable_input_counterexample:
  "unreadable_input no_files ''hanja.txt''
   \<and> \<not> os_path_exists no_files ''hanja.db''
   \<and> fst (build_database no_files ''hanja.txt'' ''hanja.db'') = Inl FileNotFoundError
   \<and> os_path_exists (snd (build_database no_files ''hanja.txt'' ''hanja.db'')) ''hanja.db''
   \<and> database_at (snd (build_database no_files ''hanja.txt'' ''hanja.db'')) ''hanja.db''
       = Some \<lparr>has_table = True, has_index = True, rows = [], last_id = 0\<rparr>"
  by (simp add: no_files_def unreadable_input_def os_path_exists_def build_database_eq
      open_text_def database_at_def database_file_def schema_only_def)

text \<open>
  C4. When a database of any number of records is at the output path and the input is
  a readable text, the build succeeds and the output path holds exactly the records of
  the accepted entries of the input, as many as the build reports. The result is the
  one the build gives when nothing is at the output path: no earlier record remains.
\<close>

theorem build_replaces:
  assumes "database_at fs output_path = Some old"
    and "fs input_path = Some \<lparr>readable = True, content = Text ls\<rparr>"
  shows "fst (build_database fs input_path output_path) = Inr (length (accepted_entries ls))
         \<and> (\<exists>db. database_at (snd (build_database fs input_path output_path)) output_path
                   = Some db
               \<and> length (rows db) = length (accepted_entries ls)
               \<and> map row_tuple (rows db)
                   = map (\<lambda>(h, j, m). (h, j, m, 0)) (accepted_entries ls))
         \<and> build_database (fs(output_path := None)) input_path output_path
             = build_database fs input_path output_path"
proof -
  from assms have ne: "input_path \<noteq> output_path"
    by (auto simp: database_at_def)
  then have "(fs(output_path := None)) input_path
      = Some \<lparr>readable = True, content = Text ls\<rparr>"
    using assms(2) by simp
  from build_database_text [of "fs(output_path := None)" input_path ls output_path, OF this ne]
    build_database_text [of fs input_path ls output_path, OF assms(2) ne]
  show ?thesis
    by (simp add: database_at_update built_database_def length_inserted_rows
        row_tuple_inserted_rows)
qed

theorem build_replaces_witness:
  "database_at sample_fs ''hanja.db'' = Some sample_old
   \<and> length (rows sample_old) = 2
   \<and> sample_fs ''hanja.txt'' = Some \<lparr>readable = True, content = Text sample_lines\<rparr>
   \<and> fst (build_database sample_fs ''hanja.txt'' ''hanja.db'') = Inr 1
   \<and> (\<exists>db. database_at (snd (build_database sample_fs ''hanja.txt'' ''hanja.db'')) ''hanja.db''
             = Some db
         \<and> map row_tuple (rows db) = [(ustr ''a'', ustr ''b'', ustr ''c'', 0)])"
proof -
  have n: "length (rows sample_old) = 2"
    by (simp add: sample_old_def built_database_def)
  from build_replaces [OF sample_fs_output sample_fs_input] n sample_fs_output sample_fs_input
  show ?thesis
    by (auto simp: accepted_sample_lines)
qed

lemma accepted_scenario_lines:
  "accepted_entries scenario_lines =
     [([hangul_ga], ustr ''family'', ustr ''false reading example''),
      ([hangul_ga], [hanja_leisure], ustr ''leisure''),
      ([hangul_na], [hanja_that], ustr ''that'')]"
  by (simp add: accepted_entries_def List.map_filter_simps scenario_lines_def text_eval
      hangul_ga_def hangul_na_def hanja_leisure_def hanja_that_def)

text \<open>
  C5. The build from the five lines of the scenario reports three entries and leaves
  exactly three records, in input order, each with frequency 0; the lookup by hangul
  finds two of them for U+AC00, one for U+B098 and none for U+B2E4.
\<close>

theorem build_scenario:
  assumes "fs input_path = Some \<lparr>readable = True, content = Text scenario_lines\<rparr>"
    and "input_path \<noteq> output_path"
  shows "\<exists>db. build_database fs input_path output_path
               = (Inr 3, fs(output_path \<mapsto> database_file db))
           \<and> rows db =
               [\<lparr>row_id = 1, hangul = [hangul_ga], hanja = ustr ''family'',
                 meaning = ustr ''false reading example'', frequency = 0\<rparr>,
                \<lparr>row_id = 2, hangul = [hangul_ga], hanja = [hanja_leisure],
                 meaning = ustr ''leisure'', frequency = 0\<rparr>,
                \<lparr>row_id = 3, hangul = [hangul_na], hanja = [hanja_that],
                 meaning = ustr ''that'', frequency = 0\<rparr>]
           \<and> length (lookup db [hangul_ga]) = 2
           \<and> length (lookup db [hangul_na]) = 1
           \<and> length (lookup db [hangul_da]) = 0"
proof -
  let ?db = "built_database (accepted_entries scenario_lines)"
  have "build_database fs input_path output_path
      = (Inr 3, fs(output_path \<mapsto> database_file ?db))"
    using build_database_text [of fs input_path scenario_lines output_path, OF assms]
    by (simp add: accepted_scenario_lines)
  moreover have "rows ?db =
      [\<lparr>row_id = 1, hangul = [hangul_ga], hanja = ustr ''family'',
        meaning = ustr ''false reading example'', frequency = 0\<rparr>,
       \<lparr>row_id = 2, hangul = [hangul_ga], hanja = [hanja_leisure],
        meaning = ustr ''leisure'', frequency = 0\<rparr>,
       \<lparr>row_id = 3, hangul = [hangul_na], hanja = [hanja_that],
        meaning = ustr ''that'', frequency = 0\<rparr>]"
    by (simp add: accepted_scenario_lines built_database_def new_row_def)
  moreover from this have "length (lookup ?db [hangul_ga]) = 2"
    and "length (lookup ?db [hangul_na]) = 1" and "length (lookup ?db [hangul_da]) = 0"
    by (simp_all add: lookup_def hangul_ga_def hangul_na_def hangul_da_def)
  ultimately show ?thesis by blast
qed

theorem build_scenario_witness:
  "scenario_fs ''hanja.txt'' = Some \<lparr>readable = True, content = Text scenario_lines\<rparr>
   \<and> ''hanja.txt'' \<noteq> ''hanja.db''
   \<and> fst (build_database scenario_fs ''hanja.txt'' ''hanja.db'') = Inr 3"
proof -
  have h: "scenario_fs ''hanja.txt'' = Some \<lparr>readable = True, content = Text scenario_lines\<rparr>"
    by (simp add: scenario_fs_def)
  from build_scenario [of scenario_fs "''hanja.txt''" "''hanja.db''", OF h sample_paths] h
  show ?thesis
    by auto
qed

text \<open>
  C6. From a readable text input, a build followed by a second build of the same input
  succeeds twice with the same count, and leaves each time the same records: the same
  number, the same tuples \<open>(hangul, hanja, meaning, frequency)\<close> as a multiset, and in
  the same order, that of the accepted entries of the input.
\<close>

theorem build_twice:
  assumes "fs input_path = Some \<lparr>readable = True, content = Text ls\<rparr>"
    and "input_path \<noteq> output_path"
  shows "\<exists>n fs1 fs2 db1 db2.
           build_database fs input_path output_path = (Inr n, fs1)
           \<and> build_database fs1 input_path output_path = (Inr n, fs2)
           \<and> database_at fs1 output_path = Some db1
           \<and> database_at fs2 output_path = Some db2
           \<and> length (rows db1) = n \<and> length (rows db2) = n
           \<and> mset (map row_tuple (rows db1)) = mset (map row_tuple (rows db2))
           \<and> map row_tuple (rows db1) = map (\<lambda>(h, j, m). (h, j, m, 0)) (accepted_entries ls)
           \<and> map row_tuple (rows db2) = map (\<lambda>(h, j, m). (h, j, m, 0)) (accepted_entries ls)
           \<and> rows db1 = rows db2"
proof -
  let ?db = "built_database (accepted_entries ls)"
  let ?fs1 = "fs(output_path \<mapsto> database_file ?db)"
  have first: "build_database fs input_path output_path
      = (Inr (length (accepted_entries ls)), ?fs1)"
    by (rule build_database_text [of fs input_path ls output_path, OF assms])
  have "?fs1 input_path = Some \<lparr>readable = True, content = Text ls\<rparr>"
    using assms by simp
  from build_database_text [of ?fs1 input_path ls output_path, OF this assms(2)]
  have second: "build_database ?fs1 input_path output_path
      = (Inr (length (accepted_entries ls)), ?fs1)"
    by simp
  have at: "database_at ?fs1 output_path = Some ?db"
    by (rule database_at_update)
  have len: "length (rows ?db) = length (accepted_entries ls)"
    by (simp add: built_database_def length_inserted_rows)
  have tup: "map row_tuple (rows ?db) = map (\<lambda>(h, j, m). (h, j, m, 0)) (accepted_entries ls)"
    by (simp add: built_database_def row_tuple_inserted_rows)
  from first second at len tup show ?thesis by blast
qed

theorem build_twice_witness:
  "sample_fs ''hanja.txt'' = Some \<lparr>readable = True, content = Text sample_lines\<rparr>
   \<and> ''hanja.txt'' \<noteq> ''hanja.db''
   \<and> (\<exists>fs1 fs2 db1 db2.
         build_database sample_fs ''hanja.txt'' ''hanja.db'' = (Inr 1, fs1)
         \<and> build_database fs1 ''hanja.txt'' ''hanja.db'' = (Inr 1, fs2)
         \<and> database_at fs1 ''hanja.db'' = Some db1
         \<and> database_at fs2 ''hanja.db'' = Some db2
         \<and> map row_tuple (rows db1) = [(ustr ''a'', ustr ''b'', ustr ''c'', 0)]
         \<and> map row_tuple (rows db2) = [(ustr ''a'', ustr ''b'', ustr ''c'', 0)])"
proof -
  from build_twice [of sample_fs "''hanja.txt''" sample_lines "''hanja.db''",
      OF sample_fs_input sample_paths]
  obtain n fs1 fs2 db1 db2 where
    b: "build_database sample_fs ''hanja.txt'' ''hanja.db'' = (Inr n, fs1)"
       "build_database fs1 ''hanja.txt'' ''hanja.db'' = (Inr n, fs2)"
       "database_at fs1 ''hanja.db'' = Some db1" "database_at fs2 ''hanja.db'' = Some db2"
    and n: "length (rows db1) = n"
    and t: "map row_tuple (rows db1) = map (\<lambda>(h, j, m). (h, j, m, 0)) (accepted_entries sample_lines)"
       "map row_tuple (rows db2) = map (\<lambda>(h, j, m). (h, j, m, 0)) (accepted_entries sample_lines)"
    by blast
  from t have t': "map row_tuple (rows db1) = [(ustr ''a'', ustr ''b'', ustr ''c'', 0)]"
    "map row_tuple (rows db2) = [(ustr ''a'', ustr ''b'', ustr ''c'', 0)]"
    by (simp_all add: accepted_sample_lines)
  from t'(1) have "length (map row_tuple (rows db1)) = 1"
    by simp
  with n have n1: "n = 1" by simp
  from b(1,2) have b1: "build_database sample_fs ''hanja.txt'' ''hanja.db'' = (Inr 1, fs1)"
    "build_database fs1 ''hanja.txt'' ''hanja.db'' = (Inr 1, fs2)"
    by (simp_all add: n1)
  from b1 b(3,4) t' sample_fs_input sample_paths show ?thesis
    by (intro conjI exI)
qed

text \<open>
  C7. Whatever the file system and the paths, and however the build ends, every record
  of the database it leaves at the output path has frequency 0.
\<close>

theorem build_frequency_zero:
  assumes "build_database fs input_path output_path = (r, fs')"
    and "database_at fs' output_path = Some db"
    and "row \<in> set (rows db)"
  shows "frequency row = 0"
proof -
  from build_database_leaves [OF assms(1,2)] obtain ls where
    "db = built_database (accepted_entries ls)"
    by blast
  with assms(3) have "row \<in> set (inserted_rows 0 (accepted_entries ls))"
    by (simp add: built_database_def)
  from inserted_rows_mem [OF this] obtain e n where "row = new_row n e"
    by blast
  then show ?thesis
    by (simp add: new_row_def split: prod.split)
qed

text \<open>The build of the sample input, spelled out for the concrete checks below.\<close>

lemma build_sample:
  "build_database sample_fs ''hanja.txt'' ''hanja.db'' =
     (Inr 1, sample_fs(''hanja.db'' \<mapsto> database_file (built_database [(ustr ''a'', ustr ''b'', ustr ''c'')])))"
  using build_database_text [of sample_fs "''hanja.txt''" sample_lines "''hanja.db''",
      OF sample_fs_input sample_paths]
  by (simp add: accepted_sample_lines)

lemma sample_row:
  "new_row 1 (ustr ''a'', ustr ''b'', ustr ''c'')
     \<in> set (rows (built_database [(ustr ''a'', ustr ''b'', ustr ''c'')]))"
  by (simp add: built_database_def)

theorem build_frequency_zero_witness:
  "build_database sample_fs ''hanja.txt'' ''hanja.db'' =
     (Inr 1, sample_fs(''hanja.db'' \<mapsto> database_file (built_database [(ustr ''a'', ustr ''b'', ustr ''c'')])))
   \<and> database_at
        (sample_fs(''hanja.db'' \<mapsto> database_file (built_database [(ustr ''a'', ustr ''b'', ustr ''c'')])))
        ''hanja.db'' = Some (built_database [(ustr ''a'', ustr ''b'', ustr ''c'')])
   \<and> new_row 1 (ustr ''a'', ustr ''b'', ustr ''c'')
        \<in> set (rows (built_database [(ustr ''a'', ustr ''b'', ustr ''c'')]))
   \<and> frequency (new_row 1 (ustr ''a'', ustr ''b'', ustr ''c'')) = 0"
  using build_frequency_zero [OF build_sample database_at_update sample_row]
    build_sample database_at_update sample_row
  by blast

text \<open>
  C9. Every entry the parser returns has three fields without a colon and without
  leading or trailing whitespace, and a hangul and a hanja that are not empty; so has
  every record of the database a build leaves at its output path.
\<close>

theorem entries_are_clean:
  "(\<forall>line e. parse_hanja_line line = Some e \<longrightarrow> valid_entry e)
   \<and> (\<forall>fs input_path output_path r fs' db row.
         build_database fs input_path output_path = (r, fs')
         \<and> database_at fs' output_path = Some db \<and> row \<in> set (rows db)
         \<longrightarrow> valid_entry (hangul row, hanja row, meaning row))"
proof (intro conjI allI impI)
  fix line e
  assume "parse_hanja_line line = Some e"
  then show "valid_entry e" by (rule parse_valid)
next
  fix fs input_path output_path r fs' db row
  assume a: "build_database fs input_path output_path = (r, fs')
      \<and> database_at fs' output_path = Some db \<and> row \<in> set (rows db)"
  then obtain ls where "db = built_database (accepted_entries ls)"
    using build_database_leaves by blast
  with a have "row \<in> set (inserted_rows 0 (accepted_entries ls))"
    by (simp add: built_database_def)
  from inserted_rows_mem [OF this] obtain e n where
    e: "e \<in> set (accepted_entries ls)" and row: "row = new_row n e"
    by blast
  from accepted_entries_mem [OF e] have "valid_entry e"
    using parse_valid by blast
  with row show "valid_entry (hangul row, hanja row, meaning row)"
    by (cases e) (simp add: new_row_def)
qed

theorem entries_are_clean_witness:
  "parse_hanja_line (ustr '' a : b :c d  '') = Some (ustr ''a'', ustr ''b'', ustr ''c d'')
   \<and> valid_entry (ustr ''a'', ustr ''b'', ustr ''c d'')
   \<and> build_database sample_fs ''hanja.txt'' ''hanja.db'' =
       (Inr 1, sample_fs(''hanja.db'' \<mapsto> database_file (built_database [(ustr ''a'', ustr ''b'', ustr ''c'')])))
   \<and> valid_entry (hangul (new_row 1 (ustr ''a'', ustr ''b'', ustr ''c'')),
        hanja (new_row 1 (ustr ''a'', ustr ''b'', ustr ''c'')),
        meaning (new_row 1 (ustr ''a'', ustr ''b'', ustr ''c'')))"
proof -
  have p: "parse_hanja_line (ustr '' a : b :c d  '') = Some (ustr ''a'', ustr ''b'', ustr ''c d'')"
    by (simp add: text_eval)
  from entries_are_clean p have "valid_entry (ustr ''a'', ustr ''b'', ustr ''c d'')"
    by blast
  moreover from entries_are_clean build_sample database_at_update sample_row
  have "valid_entry (hangul (new_row 1 (ustr ''a'', ustr ''b'', ustr ''c'')),
        hanja (new_row 1 (ustr ''a'', ustr ''b'', ustr ''c'')),
        meaning (new_row 1 (ustr ''a'', ustr ''b'', ustr ''c'')))"
    by blast
  ultimately show ?thesis
    using p build_sample by blast
qed

end
